theory Spec2Isabelle
  imports Main "HOL-Library.Char_ord" "HOL-Library.List_Lexorder"
begin

section \<open>Python string primitives\<close>

text \<open>
  A Python \<open>str\<close> is modelled as a \<open>string\<close> whose characters are the code points
  0..255 (one \<open>char\<close> per code point, so \<open>length\<close> is Python's \<open>len\<close>). Texts with code
  points beyond 255 are outside the model. The library functions of Python used by the
  scripts (\<open>str.split\<close>, \<open>str.strip\<close>, \<open>str.lower\<close>, \<open>os.path.basename\<close>,
  \<open>os.path.splitext\<close>, \<open>re.sub\<close>, \<open>re.search\<close>) are written out as they behave on
  such strings.
\<close>

definition nl :: char where
  "nl = CHR 0x0A"

text \<open>\<open>str.isspace\<close> on code points up to 255.\<close>

definition is_space :: "char \<Rightarrow> bool" where
  "is_space c = (c \<in> set [CHR 0x09, CHR 0x0A, CHR 0x0B, CHR 0x0C, CHR 0x0D,
                           CHR 0x1C, CHR 0x1D, CHR 0x1E, CHR 0x1F, CHR 0x20,
                           CHR 0x85, CHR 0xA0])"

text \<open>\<open>s.strip()\<close>: whitespace removed at both ends.\<close>

definition strip :: "string \<Rightarrow> string" where
  "strip s = rev (dropWhile is_space (rev (dropWhile is_space s)))"

text \<open>\<open>s.split()\<close>: the maximal runs of non-whitespace characters. \<open>cur\<close> is the word
  being read, reversed.\<close>

fun split_ws_aux :: "string \<Rightarrow> string \<Rightarrow> string list" where
  "split_ws_aux cur [] = (if cur = [] then [] else [rev cur])"
| "split_ws_aux cur (c # s) =
     (if is_space c then (if cur = [] then split_ws_aux [] s else rev cur # split_ws_aux [] s)
      else split_ws_aux (c # cur) s)"

definition split_ws :: "string \<Rightarrow> string list" where
  "split_ws s = split_ws_aux [] s"

text \<open>\<open>s.split(sep)\<close> for a one-character separator: never empty, \<open>''''.split(sep) = ['''']\<close>.\<close>

fun split_on :: "char \<Rightarrow> string \<Rightarrow> string list" where
  "split_on sep [] = [[]]"
| "split_on sep (c # s) =
     (if c = sep then [] # split_on sep s
      else (case split_on sep s of [] \<Rightarrow> [[c]] | l # ls \<Rightarrow> (c # l) # ls))"

text \<open>\<open>sep.join(xs)\<close>.\<close>

fun join :: "string \<Rightarrow> string list \<Rightarrow> string" where
  "join sep [] = []"
| "join sep [x] = x"
| "join sep (x # y # ys) = x @ sep @ join sep (y # ys)"

text \<open>\<open>s.count(c)\<close> for a single character.\<close>

definition count_char :: "char \<Rightarrow> string \<Rightarrow> nat" where
  "count_char c s = length (filter (\<lambda>x. x = c) s)"

text \<open>\<open>s.startswith(p)\<close>.\<close>

fun startswith :: "string \<Rightarrow> string \<Rightarrow> bool" where
  "startswith s [] = True"
| "startswith [] (p # ps) = False"
| "startswith (c # s) (p # ps) = (c = p \<and> startswith s ps)"

text \<open>\<open>p in s\<close> for strings: \<open>p\<close> occurs as a contiguous substring.\<close>

fun contains :: "string \<Rightarrow> string \<Rightarrow> bool" where
  "contains [] p = (p = [])"
| "contains (c # s) p = (startswith (c # s) p \<or> contains s p)"

text \<open>\<open>c.lower()\<close> on code points up to 255: A-Z and the upper-case letters of
  0xC0..0xDE (0xD7, the multiplication sign, has no case) move up by 32.\<close>

definition upper_chars :: string where
  "upper_chars = ''ABCDEFGHIJKLMNOPQRSTUVWXYZ'' @
     [CHR 0xC0, CHR 0xC1, CHR 0xC2, CHR 0xC3, CHR 0xC4, CHR 0xC5, CHR 0xC6, CHR 0xC7,
      CHR 0xC8, CHR 0xC9, CHR 0xCA, CHR 0xCB, CHR 0xCC, CHR 0xCD, CHR 0xCE, CHR 0xCF,
      CHR 0xD0, CHR 0xD1, CHR 0xD2, CHR 0xD3, CHR 0xD4, CHR 0xD5, CHR 0xD6,
      CHR 0xD8, CHR 0xD9, CHR 0xDA, CHR 0xDB, CHR 0xDC, CHR 0xDD, CHR 0xDE]"

definition lower_chars :: string where
  "lower_chars = ''abcdefghijklmnopqrstuvwxyz'' @
     [CHR 0xE0, CHR 0xE1, CHR 0xE2, CHR 0xE3, CHR 0xE4, CHR 0xE5, CHR 0xE6, CHR 0xE7,
      CHR 0xE8, CHR 0xE9, CHR 0xEA, CHR 0xEB, CHR 0xEC, CHR 0xED, CHR 0xEE, CHR 0xEF,
      CHR 0xF0, CHR 0xF1, CHR 0xF2, CHR 0xF3, CHR 0xF4, CHR 0xF5, CHR 0xF6,
      CHR 0xF8, CHR 0xF9, CHR 0xFA, CHR 0xFB, CHR 0xFC, CHR 0xFD, CHR 0xFE]"

definition lower_char :: "char \<Rightarrow> char" where
  "lower_char c = (case map_of (zip upper_chars lower_chars) c of None \<Rightarrow> c | Some d \<Rightarrow> d)"

definition lower :: "string \<Rightarrow> string" where
  "lower s = map lower_char s"

subsection \<open>The regular expressions of the scripts\<close>

text \<open>
  The patterns used are sequences of literal characters, the wildcard \<open>.\<close> (any character
  but a newline) and the lazy repetition \<open>.*?\<close>. \<open>rx_match ic p s\<close> is the backtracking
  match of the sequence \<open>p\<close> at the start of \<open>s\<close>: the number of characters consumed by the
  first match found, a lazy repetition trying the rest of the pattern before it takes one
  more character. \<open>ic\<close> is the flag \<open>(?i)\<close>.
\<close>

datatype rx = Lit char | Dot | LazyDots

definition lits :: "string \<Rightarrow> rx list" where
  "lits s = map Lit s"

definition chr_eq :: "bool \<Rightarrow> char \<Rightarrow> char \<Rightarrow> bool" where
  "chr_eq ic p c = (if ic then lower_char p = lower_char c else p = c)"

fun rx_match :: "bool \<Rightarrow> rx list \<Rightarrow> string \<Rightarrow> nat option" where
  "rx_match ic [] s = Some 0"
| "rx_match ic (Lit p # ps) [] = None"
| "rx_match ic (Lit p # ps) (c # s) =
     (if chr_eq ic p c then map_option Suc (rx_match ic ps s) else None)"
| "rx_match ic (Dot # ps) [] = None"
| "rx_match ic (Dot # ps) (c # s) =
     (if c \<noteq> nl then map_option Suc (rx_match ic ps s) else None)"
| "rx_match ic (LazyDots # ps) s =
     (case rx_match ic ps s of
        Some n \<Rightarrow> Some n
      | None \<Rightarrow> (case s of
                  [] \<Rightarrow> None
                | c # s' \<Rightarrow> if c = nl then None
                            else map_option Suc (rx_match ic (LazyDots # ps) s')))"

text \<open>\<open>re.search\<close> of an alternation \<open>(p1|p2|...)\<close>: some alternative matches at some
  position.\<close>

fun rx_search :: "bool \<Rightarrow> rx list list \<Rightarrow> string \<Rightarrow> bool" where
  "rx_search ic alts [] = (\<exists>p \<in> set alts. rx_match ic p [] \<noteq> None)"
| "rx_search ic alts (c # s) =
     ((\<exists>p \<in> set alts. rx_match ic p (c # s) \<noteq> None) \<or> rx_search ic alts s)"

text \<open>
  The left-to-right scan of \<open>re.findall\<close> and \<open>re.sub\<close> for a pattern that matches no empty
  string: at each position the pattern is tried; a match of \<open>n\<close> characters is taken and the
  scan goes on behind it (\<open>skip\<close> counts the characters of the current match still to pass).
\<close>

fun rx_findall_count :: "rx list \<Rightarrow> nat \<Rightarrow> string \<Rightarrow> nat" where
  "rx_findall_count p skip [] = 0"
| "rx_findall_count p skip (c # s) =
     (if 0 < skip then rx_findall_count p (skip - 1) s
      else (case rx_match False p (c # s) of
              None \<Rightarrow> rx_findall_count p 0 s
            | Some n \<Rightarrow> Suc (rx_findall_count p (n - 1) s)))"

fun rx_sub_aux :: "rx list \<Rightarrow> string \<Rightarrow> nat \<Rightarrow> string \<Rightarrow> string" where
  "rx_sub_aux p repl skip [] = []"
| "rx_sub_aux p repl skip (c # s) =
     (if 0 < skip then rx_sub_aux p repl (skip - 1) s
      else (case rx_match False p (c # s) of
              None \<Rightarrow> c # rx_sub_aux p repl 0 s
            | Some n \<Rightarrow> repl @ rx_sub_aux p repl (n - 1) s))"

definition rx_sub :: "rx list \<Rightarrow> string \<Rightarrow> string \<Rightarrow> string" where
  "rx_sub p repl s = rx_sub_aux p repl 0 s"

section \<open>evaluate.py: the structural score\<close>

record structural =
  num_headings :: nat
  num_code_blocks :: nat
  has_install_section :: bool
  has_usage_section :: bool
  has_description :: bool
  num_bullet_points :: nat
  total_length :: nat
  total_lines :: nat

text \<open>\<open>(?i)(install|setup|getting.started)\<close> and
  \<open>(?i)(usage|how.to.use|example|quick.start)\<close>.\<close>

definition install_rx :: "rx list list" where
  "install_rx = [lits ''install'', lits ''setup'',
                 lits ''getting'' @ [Dot] @ lits ''started'']"

definition usage_rx :: "rx list list" where
  "usage_rx = [lits ''usage'',
               lits ''how'' @ [Dot] @ lits ''to'' @ [Dot] @ lits ''use'',
               lits ''example'',
               lits ''quick'' @ [Dot] @ lits ''start'']"

text \<open>The third bullet prefix of the source, U+2022, is no character of the strings
  modelled here (code points up to 255), so no line of such a text starts with it.\<close>

definition is_bullet :: "string \<Rightarrow> bool" where
  "is_bullet l = (startswith (strip l) ''-'' \<or> startswith (strip l) ''*'')"

definition structural_score :: "string \<Rightarrow> structural" where
  "structural_score text =
     (let lines = split_on nl text;
          headings = filter (\<lambda>l. startswith (strip l) ''#'') lines;
          code_blocks = rx_findall_count (lits ''```'') 0 text div 2;
          has_install = rx_search True install_rx text;
          has_usage = rx_search True usage_rx text;
          has_desc = (length text > 100);
          bullet_points = length (filter is_bullet lines)
      in \<lparr> num_headings = length headings,
           num_code_blocks = code_blocks,
           has_install_section = has_install,
           has_usage_section = has_usage,
           has_description = has_desc,
           num_bullet_points = bullet_points,
           total_length = length text,
           total_lines = length lines \<rparr>)"

section \<open>prepare_data.py: collecting repository/README pairs\<close>

definition CODE_EXTENSIONS :: "string list" where
  "CODE_EXTENSIONS =
     [''.py'', ''.js'', ''.ts'', ''.jsx'', ''.tsx'', ''.java'', ''.go'', ''.rs'',
      ''.cpp'', ''.c'', ''.h'', ''.rb'', ''.php'', ''.swift'', ''.kt'', ''.scala'',
      ''.cs'', ''.r'', ''.jl'', ''.lua'', ''.sh'', ''.bash'', ''.zsh'']"

definition IMPORTANT_FILES :: "string list" where
  "IMPORTANT_FILES =
     [''setup.py'', ''setup.cfg'', ''pyproject.toml'', ''package.json'',
      ''cargo.toml'', ''go.mod'', ''build.gradle'', ''pom.xml'',
      ''makefile'', ''dockerfile'', ''docker-compose.yml'',
      ''requirements.txt'', ''gemfile'', ''.env.example'']"

definition MAX_FILE_CHARS :: nat where
  "MAX_FILE_CHARS = 1500"

definition MAX_TOTAL_CODE_CHARS :: nat where
  "MAX_TOTAL_CODE_CHARS = 6000"

definition MAX_README_CHARS :: nat where
  "MAX_README_CHARS = 4000"

definition truncation_marker :: string where
  "truncation_marker = ''... (truncated)''"

text \<open>An entry of the tree returned by the API, a dict with the keys \<open>path\<close> and
  \<open>type\<close> (the strings \<open>blob\<close>, \<open>tree\<close> or, for a submodule, \<open>commit\<close>).\<close>

record item =
  item_path :: string
  item_type :: string

text \<open>The reply to an HTTP request. For the tree endpoint the body is the JSON object, of
  which only the key \<open>tree\<close> is read (\<open>None\<close>: the key is absent); for the raw-content
  endpoint it is the text. The owner, the repository and the token only build the URL and
  the headers: the endpoints of the repository at hand are the parameters \<open>api\<close> (the
  reply to the tree request) and \<open>raw\<close> (the reply to the content request of a path).\<close>

record tree_response =
  tree_status :: nat
  tree_json :: "item list option"

record response =
  status_code :: nat
  resp_text :: string

definition get_repo_tree :: "tree_response \<Rightarrow> item list option" where
  "get_repo_tree api =
     (if tree_status api \<noteq> 200 then None
      else Some (case tree_json api of None \<Rightarrow> [] | Some t \<Rightarrow> t))"

definition get_file_content :: "(string \<Rightarrow> response) \<Rightarrow> string \<Rightarrow> string option" where
  "get_file_content raw p =
     (let resp = raw p in
      if status_code resp \<noteq> 200 then None else Some (resp_text resp))"

text \<open>\<open>os.path.basename\<close>: what follows the last slash. \<open>os.path.splitext(p)[1]\<close>: the
  basename from its last dot on, unless only dots precede that dot in the basename.\<close>

definition basename :: "string \<Rightarrow> string" where
  "basename p = rev (takeWhile (\<lambda>c. c \<noteq> CHR ''/'') (rev p))"

definition splitext_ext :: "string \<Rightarrow> string" where
  "splitext_ext p =
     (let b = basename p;
          suf = rev (takeWhile (\<lambda>c. c \<noteq> CHR ''.'') (rev b));
          pre = take (length b - length suf - 1) b
      in if CHR ''.'' \<in> set b \<and> (\<exists>c \<in> set pre. c \<noteq> CHR ''.'') then CHR ''.'' # suf else [])"

text \<open>The comprehension of \<open>build_file_tree_string\<close>: the entries listed, sorted.\<close>

definition tree_keep :: "item \<Rightarrow> bool" where
  "tree_keep it =
     (item_type it \<in> set [''blob'', ''tree'']
      \<and> \<not> (\<exists>part \<in> set (split_on CHR ''/'' (item_path it)). startswith part ''.'')
      \<and> \<not> contains (item_path it) ''node_modules''
      \<and> \<not> contains (item_path it) ''__pycache__''
      \<and> \<not> contains (item_path it) ''.egg-info'')"

definition tree_paths :: "item list \<Rightarrow> string list" where
  "tree_paths tree = sort (map item_path (filter tree_keep tree))"

definition build_file_tree_string :: "item list \<Rightarrow> nat \<Rightarrow> string" where
  "build_file_tree_string tree max_entries =
     (let paths = tree_paths tree in
      if length paths > max_entries
      then join [nl] (take max_entries paths @ [truncation_marker])
      else join [nl] paths)"

text \<open>\<open>select_key_files\<close>: the two passes over the tree, the loop that removes
  duplicates (\<open>seen\<close> and \<open>deduped\<close> are its two variables), and the cut to 10.\<close>

definition is_important :: "item \<Rightarrow> bool" where
  "is_important it =
     (item_type it = ''blob'' \<and> lower (basename (item_path it)) \<in> set IMPORTANT_FILES)"

definition is_code :: "item \<Rightarrow> bool" where
  "is_code it =
     (item_type it = ''blob''
      \<and> lower (splitext_ext (item_path it)) \<in> set CODE_EXTENSIONS
      \<and> count_char CHR ''/'' (item_path it) \<le> 2)"

fun dedup_loop :: "string set \<Rightarrow> string list \<Rightarrow> string list \<Rightarrow> string list" where
  "dedup_loop seen deduped [] = deduped"
| "dedup_loop seen deduped (p # ps) =
     (if p \<notin> seen then dedup_loop (insert p seen) (deduped @ [p]) ps
      else dedup_loop seen deduped ps)"

definition select_key_files :: "item list \<Rightarrow> string list" where
  "select_key_files tree =
     (let selected = map item_path (filter is_important tree)
                     @ map item_path (filter is_code tree)
      in take 10 (dedup_loop {} [] selected))"

text \<open>\<open>build_code_snippets\<close>: the loop over the selection, with its two variables
  \<open>snippets\<close> and \<open>total_chars\<close>; the function returns the blocks joined by a blank
  line.\<close>

definition snippet_block :: "string \<Rightarrow> string \<Rightarrow> string" where
  "snippet_block p content = ''--- '' @ p @ '' ---'' @ [nl] @ content"

fun snippets_loop ::
  "(string \<Rightarrow> response) \<Rightarrow> string list \<Rightarrow> string list \<times> nat \<Rightarrow> string list \<times> nat" where
  "snippets_loop raw [] (snippets, total_chars) = (snippets, total_chars)"
| "snippets_loop raw (p # ps) (snippets, total_chars) =
     (if total_chars \<ge> MAX_TOTAL_CODE_CHARS then (snippets, total_chars)
      else (case get_file_content raw p of
              None \<Rightarrow> snippets_loop raw ps (snippets, total_chars)
            | Some content \<Rightarrow>
                (let content = take MAX_FILE_CHARS content in
                 snippets_loop raw ps
                   (snippets @ [snippet_block p content], total_chars + length content))))"

definition build_code_snippets :: "(string \<Rightarrow> response) \<Rightarrow> string list \<Rightarrow> string" where
  "build_code_snippets raw file_paths =
     join [nl, nl] (fst (snippets_loop raw file_paths ([], 0)))"

text \<open>\<open>clean_readme\<close>: the two badge patterns removed, runs of three or more newlines
  made two (\<open>n\<close> counts the newlines of the run being read), the result stripped.\<close>

definition linked_badge_rx :: "rx list" where
  "linked_badge_rx = lits ''[!['' @ [LazyDots] @ lits '']('' @ [LazyDots]
                     @ lits '')]('' @ [LazyDots] @ lits '')''"

definition image_rx :: "rx list" where
  "image_rx = lits ''!['' @ [LazyDots] @ lits '']('' @ [LazyDots] @ lits '')''"

fun collapse_newlines :: "nat \<Rightarrow> string \<Rightarrow> string" where
  "collapse_newlines n [] = replicate (if n \<ge> 3 then 2 else n) nl"
| "collapse_newlines n (c # s) =
     (if c = nl then collapse_newlines (Suc n) s
      else replicate (if n \<ge> 3 then 2 else n) nl @ c # collapse_newlines 0 s)"

definition clean_readme :: "string \<Rightarrow> string" where
  "clean_readme readme =
     (let readme = rx_sub linked_badge_rx [] readme;
          readme = rx_sub image_rx [] readme;
          readme = collapse_newlines 0 readme
      in strip readme)"

definition is_quality_readme :: "string \<Rightarrow> bool" where
  "is_quality_readme readme =
     (if length readme < 200 then False
      else if length readme > MAX_README_CHARS then False
      else if count_char CHR ''#'' readme < 2 then False
      else (let words = split_ws readme in
            if length words < 50 then False else True))"

text \<open>\<open>process_repo\<close>. Of the repository's description the keys read are kept; the two
  read with \<open>get\<close> are optional, with the defaults of the source.\<close>

record repo_info =
  ri_owner_login :: string
  ri_name :: string
  ri_full_name :: string
  ri_stargazers_count :: "int option"
  ri_language :: "string option"

record example =
  repo_name :: string
  file_tree :: string
  code_snippets :: string
  readme_content :: string
  stars :: int
  language :: string

definition is_readme :: "item \<Rightarrow> bool" where
  "is_readme it =
     (item_type it = ''blob''
      \<and> lower (item_path it) \<in> set [''readme.md'', ''readme.rst'', ''readme.txt'', ''readme''])"

definition process_repo ::
  "repo_info \<Rightarrow> tree_response \<Rightarrow> (string \<Rightarrow> response) \<Rightarrow> example option" where
  "process_repo info api raw =
     (case get_repo_tree api of
        None \<Rightarrow> None
      | Some tree \<Rightarrow>
          (case find is_readme tree of
             None \<Rightarrow> None
           | Some it \<Rightarrow>
               (case get_file_content raw (item_path it) of
                  None \<Rightarrow> None
                | Some fetched \<Rightarrow>
                    (let readme = clean_readme fetched in
                     if \<not> is_quality_readme readme then None
                     else (let ft = build_file_tree_string tree 80;
                               key_files = select_key_files tree;
                               cs = build_code_snippets raw key_files
                           in if cs = [] then None
                              else Some \<lparr> repo_name = ri_full_name info,
                                          file_tree = ft,
                                          code_snippets = cs,
                                          readme_content = readme,
                                          stars = (case ri_stargazers_count info of
                                                     None \<Rightarrow> 0 | Some n \<Rightarrow> n),
                                          language = (case ri_language info of
                                                        None \<Rightarrow> ''unknown''
                                                      | Some l \<Rightarrow> l) \<rparr>)))))"

text \<open>The loop of \<open>collect_dataset\<close> over one page of search results: the examples that
  \<open>process_repo\<close> produced, in order. Each repository comes with its two endpoints.\<close>

definition collect_page ::
  "(repo_info \<times> tree_response \<times> (string \<Rightarrow> response)) list \<Rightarrow> example list" where
  "collect_page repos =
     concat (map (\<lambda>(info, api, raw). case process_repo info api raw of
                                       None \<Rightarrow> [] | Some ex \<Rightarrow> [ex]) repos)"

section \<open>inference.py: scanning a local or a remote repository\<close>

definition IGNORE_DIRS :: "string list" where
  "IGNORE_DIRS =
     [''.git'', ''node_modules'', ''__pycache__'', ''.venv'', ''venv'',
      ''.eggs'', ''*.egg-info'', ''dist'', ''build'', ''.tox'', ''.mypy_cache'',
      ''.pytest_cache'', ''.next'', ''target'', ''vendor'']"

text \<open>The loop that adds the code files not yet among the key files
  (\<open>if f not in key_files: key_files.append(f)\<close>).\<close>

fun append_new :: "string list \<Rightarrow> string list \<Rightarrow> string list" where
  "append_new key_files [] = key_files"
| "append_new key_files (p # ps) =
     (if p \<notin> set key_files then append_new (key_files @ [p]) ps
      else append_new key_files ps)"

definition file_tree_of :: "string list \<Rightarrow> string" where
  "file_tree_of paths =
     (if length paths > 80 then join [nl] (take 80 paths) @ [nl] @ truncation_marker
      else join [nl] paths)"

subsection \<open>\<open>scan_local_repo\<close>\<close>

text \<open>A directory tree: files and directories by name. \<open>walk_files\<close> is the loop over
  \<open>os.walk\<close>: ignored directories are pruned, every file met is recorded by its path
  relative to the root (\<open>pre\<close> is the path of the directory being walked, with its final
  slash). The order of \<open>os.walk\<close> plays no role: the list is sorted right after. Reading a
  file gives its text or fails (\<open>None\<close>: \<open>OSError\<close>). \<open>repo_path\<close> is the absolute
  path that \<open>Path(repo_path).resolve()\<close> gives (resolving reads the file system; the
  result ends with no slash); the name returned is its last component, \<open>.name\<close>.\<close>

datatype fsnode = FsFile string | FsDir string "fsnode list"

fun walk_files :: "string \<Rightarrow> fsnode \<Rightarrow> string list" where
  "walk_files pre (FsFile f) = [pre @ f]"
| "walk_files pre (FsDir d children) =
     (if d \<in> set IGNORE_DIRS \<or> startswith d ''.'' then []
      else concat (map (walk_files (pre @ d @ ''/'')) children))"

definition local_files :: "fsnode list \<Rightarrow> string list" where
  "local_files root = sort (concat (map (walk_files []) root))"

definition local_key_files :: "string list \<Rightarrow> string list" where
  "local_key_files all_files =
     take 10 (append_new
       (filter (\<lambda>f. lower (basename f) \<in> set IMPORTANT_FILES) all_files)
       (filter (\<lambda>f. lower (splitext_ext f) \<in> set CODE_EXTENSIONS
                    \<and> count_char CHR ''/'' f \<le> 2) all_files))"

fun local_snippets_loop ::
  "(string \<Rightarrow> string option) \<Rightarrow> string list \<Rightarrow> string list \<times> nat \<Rightarrow> string list \<times> nat" where
  "local_snippets_loop read [] (snippets, total_chars) = (snippets, total_chars)"
| "local_snippets_loop read (f # fs) (snippets, total_chars) =
     (if total_chars \<ge> MAX_TOTAL_CODE_CHARS then (snippets, total_chars)
      else (case read f of
              None \<Rightarrow> local_snippets_loop read fs (snippets, total_chars)
            | Some txt \<Rightarrow>
                (let content = take MAX_FILE_CHARS txt in
                 local_snippets_loop read fs
                   (snippets @ [snippet_block f content], total_chars + length content))))"

definition scan_local_repo ::
  "string \<Rightarrow> fsnode list \<Rightarrow> (string \<Rightarrow> string option) \<Rightarrow> string \<times> string \<times> string" where
  "scan_local_repo repo_path root read =
     (let name = basename repo_path;
          all_files = local_files root;
          ft = file_tree_of all_files;
          key_files = local_key_files all_files;
          snippets = fst (local_snippets_loop read key_files ([], 0))
      in (name, ft, join [nl, nl] snippets))"

subsection \<open>\<open>scan_github_repo\<close>\<close>

text \<open>The errors raised to the caller: \<open>owner_repo.split("/")\<close> not giving two parts, and
  \<open>raise_for_status\<close>, which raises for the statuses 400 to 599.\<close>

datatype error = ValueError | HTTPError nat

definition github_keep :: "item \<Rightarrow> bool" where
  "github_keep it =
     (item_type it \<in> set [''blob'', ''tree'']
      \<and> \<not> (\<exists>part \<in> set (split_on CHR ''/'' (item_path it)). startswith part ''.'')
      \<and> \<not> contains (item_path it) ''node_modules''
      \<and> \<not> contains (item_path it) ''__pycache__'')"

definition github_paths :: "item list \<Rightarrow> string list" where
  "github_paths tree = sort (map item_path (filter github_keep tree))"

definition github_key_files :: "item list \<Rightarrow> string list" where
  "github_key_files tree =
     take 10 (append_new (map item_path (filter is_important tree))
                         (map item_path (filter is_code tree)))"

fun github_snippets_loop ::
  "(string \<Rightarrow> response) \<Rightarrow> string list \<Rightarrow> string list \<times> nat \<Rightarrow> string list \<times> nat" where
  "github_snippets_loop raw [] (snippets, total_chars) = (snippets, total_chars)"
| "github_snippets_loop raw (p # ps) (snippets, total_chars) =
     (if total_chars \<ge> MAX_TOTAL_CODE_CHARS then (snippets, total_chars)
      else (let resp = raw p in
            if status_code resp = 200
            then (let content = take MAX_FILE_CHARS (resp_text resp) in
                  github_snippets_loop raw ps
                    (snippets @ [snippet_block p content], total_chars + length content))
            else github_snippets_loop raw ps (snippets, total_chars)))"

definition scan_github_repo ::
  "string \<Rightarrow> tree_response \<Rightarrow> (string \<Rightarrow> response) \<Rightarrow> error + string \<times> string \<times> string" where
  "scan_github_repo owner_repo api raw =
     (if length (split_on CHR ''/'' owner_repo) \<noteq> 2 then Inl ValueError
      else if 400 \<le> tree_status api \<and> tree_status api < 600
      then Inl (HTTPError (tree_status api))
      else (let tree = (case tree_json api of None \<Rightarrow> [] | Some t \<Rightarrow> t);
                ft = file_tree_of (github_paths tree);
                key_files = github_key_files tree;
                snippets = fst (github_snippets_loop raw key_files ([], 0))
            in Inr (owner_repo, ft, join [nl, nl] snippets)))"

section \<open>Sizes and inputs used in the statements\<close>

text \<open>The size of a file as fetched (0 when the fetch fails), and that size cut to the
  per-file cap.\<close>

definition content_size :: "(string \<Rightarrow> response) \<Rightarrow> string \<Rightarrow> nat" where
  "content_size raw p = (case get_file_content raw p of None \<Rightarrow> 0 | Some c \<Rightarrow> length c)"

definition capped_size :: "(string \<Rightarrow> response) \<Rightarrow> string \<Rightarrow> nat" where
  "capped_size raw p = min MAX_FILE_CHARS (content_size raw p)"

text \<open>A snippet block of an admitted file, given as the pair of its path and its content
  as cut, and the number of content characters of a list of admitted files.\<close>

definition block_of :: "string \<times> string \<Rightarrow> string" where
  "block_of pc = snippet_block (fst pc) (snd pc)"

definition content_chars :: "(string \<times> string) list \<Rightarrow> nat" where
  "content_chars adm = sum_list (map (\<lambda>pc. length (snd pc)) adm)"

text \<open>Reading local files, seen as a content endpoint: status 200 with the text read, 404
  when the read fails.\<close>

definition endpoint_of :: "(string \<Rightarrow> string option) \<Rightarrow> string \<Rightarrow> response" where
  "endpoint_of read f =
     (case read f of None \<Rightarrow> \<lparr> status_code = 404, resp_text = [] \<rparr>
                   | Some txt \<Rightarrow> \<lparr> status_code = 200, resp_text = txt \<rparr>)"

text \<open>A repository whose every file has 6001 characters, and one whose every file has
  1300.\<close>

definition big_file :: "string \<Rightarrow> response" where
  "big_file p = \<lparr> status_code = 200, resp_text = replicate 6001 CHR ''a'' \<rparr>"

definition medium_file :: "string \<Rightarrow> response" where
  "medium_file p = \<lparr> status_code = 200, resp_text = replicate 1300 CHR ''a'' \<rparr>"

text \<open>A text of 200 characters with 50 \<open>#\<close> and 100 words.\<close>

definition headings_text :: string where
  "headings_text = concat (replicate 50 ''# a '')"

text \<open>A tree entry for a file.\<close>

definition blob_entry :: "string \<Rightarrow> item" where
  "blob_entry f = \<lparr> item_path = f, item_type = ''blob'' \<rparr>"

text \<open>Trees used as inputs: 81 files with two-letter names; a small repository; ten
  \<open>setup.py\<close> in directories that sort before a root-level \<open>.env.example\<close>; a
  repository holding only \<open>.env.example\<close>, with its content endpoint; a repository with
  the metadata directory of a Python package.\<close>

definition grid_tree :: "item list" where
  "grid_tree = concat (map (\<lambda>a. map (\<lambda>b. blob_entry [a, b]) ''abcdefghi'') ''abcdefghi'')"

definition small_tree :: "item list" where
  "small_tree = [\<lparr> item_path = ''.gitignore'', item_type = ''blob'' \<rparr>,
                 \<lparr> item_path = ''src'', item_type = ''tree'' \<rparr>,
                 \<lparr> item_path = ''src/main.py'', item_type = ''blob'' \<rparr>]"




definition egg_tree :: "item list" where
  "egg_tree = [\<lparr> item_path = ''main.py'', item_type = ''blob'' \<rparr>,
               \<lparr> item_path = ''pkg.egg-info'', item_type = ''tree'' \<rparr>,
               \<lparr> item_path = ''pkg.egg-info/PKG-INFO'', item_type = ''blob'' \<rparr>]"

text \<open>A repository with a README and one code file: its description, its tree, the reply
  to the tree request, its content endpoint, the example \<open>process_repo\<close> makes of it, and
  the same files as a local directory. Then a tree request answered with status 404, and
  the reply that carries the tree with the package metadata.\<close>

definition demo_info :: repo_info where
  "demo_info = \<lparr> ri_owner_login = ''octo'', ri_name = ''demo'', ri_full_name = ''octo/demo'',
                 ri_stargazers_count = Some 12, ri_language = Some ''Python'' \<rparr>"

definition demo_tree :: "item list" where
  "demo_tree = [\<lparr> item_path = ''README.md'', item_type = ''blob'' \<rparr>,
                \<lparr> item_path = ''main.py'', item_type = ''blob'' \<rparr>]"

definition demo_api :: tree_response where
  "demo_api = \<lparr> tree_status = 200, tree_json = Some demo_tree \<rparr>"

definition demo_readme :: string where
  "demo_readme = ''[![ci](b.svg)](ci) '' @ concat (replicate 60 ''# a '')"

definition demo_raw :: "string \<Rightarrow> response" where
  "demo_raw p =
     (if p = ''README.md'' then \<lparr> status_code = 200, resp_text = demo_readme \<rparr>
      else if p = ''main.py'' then \<lparr> status_code = 200, resp_text = ''print(1)'' \<rparr>
      else \<lparr> status_code = 404, resp_text = [] \<rparr>)"

definition demo_example :: example where
  "demo_example =
     \<lparr> repo_name = ''octo/demo'', file_tree = ''README.md'' @ [nl] @ ''main.py'',
       code_snippets = ''--- main.py ---'' @ [nl] @ ''print(1)'',
       readme_content = concat (replicate 59 ''# a '') @ ''# a'',
       stars = 12, language = ''Python'' \<rparr>"

definition demo_root :: "fsnode list" where
  "demo_root = [FsFile ''main.py'', FsFile ''README.md'']"

definition not_found :: tree_response where
  "not_found = \<lparr> tree_status = 404, tree_json = None \<rparr>"

definition egg_api :: tree_response where
  "egg_api = \<lparr> tree_status = 200, tree_json = Some egg_tree \<rparr>"

section \<open>The structural score on given texts\<close>

text \<open>
  C5 (as stated): for the empty string every count of the structural score is 0, the
  number of lines included. The source counts the pieces of \<open>text.split("\n")\<close>, and the
  empty string splits into one empty piece: the number of lines is not 0.
\<close>

theorem structural_score_empty_total_lines_counterexample:
  "total_lines (structural_score []) \<noteq> 0"
  by (simp add: structural_score_def)

text \<open>
  C5 (amended): for the empty string, \<open>has_description\<close> is false, the numbers of headings,
  code blocks and bullet points and the total length are 0, the two section flags are
  false, and the number of lines is 1.
\<close>

theorem structural_score_empty:
  "structural_score [] =
     \<lparr> num_headings = 0, num_code_blocks = 0, has_install_section = False,
       has_usage_section = False, has_description = False, num_bullet_points = 0,
       total_length = 0, total_lines = 1 \<rparr>"
  by (simp add: structural_score_def strip_def is_bullet_def install_rx_def usage_rx_def
      lits_def)

text \<open>
  C8: the text of a title line, an empty line, a line with one pair of code fences and two
  bullet lines has 1 heading, 1 code block, no install section, no usage section and 2
  bullet points.
\<close>

theorem structural_score_scenario:
  "structural_score (''# Title'' @ [nl, nl] @ ''Some text with ```code``` fence.'' @ [nl]
                     @ ''- item one'' @ [nl] @ ''- item two'') =
     \<lparr> num_headings = 1, num_code_blocks = 1, has_install_section = False,
       has_usage_section = False, has_description = False, num_bullet_points = 2,
       total_length = 63, total_lines = 5 \<rparr>"
  by code_simp

section \<open>The snippet budget\<close>

lemma snippets_loop_total_le:
  "tot \<le> 7500 \<Longrightarrow> snd (snippets_loop raw ps (sn, tot)) \<le> 7500"
proof (induction ps arbitrary: sn tot)
  case Nil
  then show ?case by simp
next
  case (Cons p ps)
  show ?case
  proof (cases "tot \<ge> MAX_TOTAL_CODE_CHARS")
    case True
    with Cons.prems show ?thesis by simp
  next
    case False
    then have lt: "tot < 6000" by (simp add: MAX_TOTAL_CODE_CHARS_def)
    show ?thesis
    proof (cases "get_file_content raw p")
      case None
      with False Cons.IH [OF Cons.prems] show ?thesis by simp
    next
      case (Some content)
      have "tot + length (take MAX_FILE_CHARS content) \<le> 7500"
        using lt by (simp add: MAX_FILE_CHARS_def)
      from Cons.IH [OF this] False Some show ?thesis by (simp add: Let_def)
    qed
  qed
qed

lemma local_snippets_loop_total_le:
  "tot \<le> 7500 \<Longrightarrow> snd (local_snippets_loop read ps (sn, tot)) \<le> 7500"
proof (induction ps arbitrary: sn tot)
  case Nil
  then show ?case by simp
next
  case (Cons p ps)
  show ?case
  proof (cases "tot \<ge> MAX_TOTAL_CODE_CHARS")
    case True
    with Cons.prems show ?thesis by simp
  next
    case False
    then have lt: "tot < 6000" by (simp add: MAX_TOTAL_CODE_CHARS_def)
    show ?thesis
    proof (cases "read p")
      case None
      with False Cons.IH [OF Cons.prems] show ?thesis by simp
    next
      case (Some content)
      have "tot + length (take MAX_FILE_CHARS content) \<le> 7500"
        using lt by (simp add: MAX_FILE_CHARS_def)
      from Cons.IH [OF this] False Some show ?thesis by (simp add: Let_def)
    qed
  qed
qed

text \<open>The loop of \<open>scan_github_repo\<close> is the loop of \<open>build_code_snippets\<close>.\<close>

lemma github_loop_eq:
  "github_snippets_loop raw ps st = snippets_loop raw ps st"
proof (induction ps arbitrary: st)
  case Nil
  show ?case by (cases st) simp
next
  case (Cons p ps)
  show ?case by (cases st) (simp add: Cons.IH get_file_content_def Let_def)
qed

text \<open>The blocks the loop adds are the blocks of the files it admits, each cut to the
  per-file cap, and the counter grows by the content characters of those files.\<close>

lemma snippets_loop_admitted:
  "\<exists>adm. fst (snippets_loop raw ps (sn, tot)) = sn @ map block_of adm
     \<and> snd (snippets_loop raw ps (sn, tot)) = tot + content_chars adm
     \<and> (\<forall>pc \<in> set adm. fst pc \<in> set ps
           \<and> (\<exists>full. get_file_content raw (fst pc) = Some full
                 \<and> snd pc = take MAX_FILE_CHARS full))"
proof (induction ps arbitrary: sn tot)
  case Nil
  have "fst (snippets_loop raw [] (sn, tot)) = sn @ map block_of []
     \<and> snd (snippets_loop raw [] (sn, tot)) = tot + content_chars []"
    by (simp add: content_chars_def)
  then show ?case by (intro exI [of _ "[]"]) simp
next
  case (Cons p ps)
  show ?case
  proof (cases "tot \<ge> MAX_TOTAL_CODE_CHARS")
    case True
    then have "fst (snippets_loop raw (p # ps) (sn, tot)) = sn @ map block_of []
       \<and> snd (snippets_loop raw (p # ps) (sn, tot)) = tot + content_chars []"
      by (simp add: content_chars_def)
    then show ?thesis by (intro exI [of _ "[]"]) simp
  next
    case False
    show ?thesis
    proof (cases "get_file_content raw p")
      case None
      from Cons.IH [of sn tot] obtain adm where
        "fst (snippets_loop raw ps (sn, tot)) = sn @ map block_of adm"
        "snd (snippets_loop raw ps (sn, tot)) = tot + content_chars adm"
        "\<forall>pc \<in> set adm. fst pc \<in> set ps
           \<and> (\<exists>full. get_file_content raw (fst pc) = Some full
                 \<and> snd pc = take MAX_FILE_CHARS full)"
        by blast
      with False None show ?thesis by (intro exI [of _ adm]) simp
    next
      case (Some full)
      let ?c = "take MAX_FILE_CHARS full"
      from Cons.IH [of "sn @ [snippet_block p ?c]" "tot + length ?c"] obtain adm where
        f: "fst (snippets_loop raw ps (sn @ [snippet_block p ?c], tot + length ?c))
              = (sn @ [snippet_block p ?c]) @ map block_of adm"
        and t: "snd (snippets_loop raw ps (sn @ [snippet_block p ?c], tot + length ?c))
              = (tot + length ?c) + content_chars adm"
        and m: "\<forall>pc \<in> set adm. fst pc \<in> set ps
           \<and> (\<exists>full. get_file_content raw (fst pc) = Some full
                 \<and> snd pc = take MAX_FILE_CHARS full)"
        by blast
      have "fst (snippets_loop raw (p # ps) (sn, tot)) = sn @ map block_of ((p, ?c) # adm)"
        using False Some f by (simp add: Let_def block_of_def)
      moreover have "snd (snippets_loop raw (p # ps) (sn, tot))
                       = tot + content_chars ((p, ?c) # adm)"
        using False Some t by (simp add: Let_def content_chars_def)
      moreover have "\<forall>pc \<in> set ((p, ?c) # adm). fst pc \<in> set (p # ps)
           \<and> (\<exists>full. get_file_content raw (fst pc) = Some full
                 \<and> snd pc = take MAX_FILE_CHARS full)"
        using m Some by auto
      ultimately show ?thesis by blast
    qed
  qed
qed

text \<open>The loop of \<open>scan_local_repo\<close> is the loop of \<open>build_code_snippets\<close> on the endpoint
  that answers with what reading gives.\<close>

lemma get_file_content_endpoint_of: "get_file_content (endpoint_of read) f = read f"
  by (simp add: get_file_content_def endpoint_of_def Let_def split: option.splits)

lemma local_loop_endpoint:
  "local_snippets_loop read fs st = snippets_loop (endpoint_of read) fs st"
proof (induction fs arbitrary: st)
  case Nil
  show ?case by (cases st) simp
next
  case (Cons f fs)
  show ?case
    by (cases st) (simp add: Cons.IH get_file_content_endpoint_of Let_def split: option.splits)
qed

lemma get_file_content_Some:
  "get_file_content raw p = Some full \<longleftrightarrow>
     status_code (raw p) = 200 \<and> full = resp_text (raw p)"
  by (auto simp add: get_file_content_def Let_def)

text \<open>The admitted files of a whole run, with the bound on their content characters.\<close>

lemma snippets_loop_run:
  "\<exists>adm. fst (snippets_loop raw ps ([], 0)) = map block_of adm
     \<and> (\<forall>pc \<in> set adm. fst pc \<in> set ps
           \<and> (\<exists>full. get_file_content raw (fst pc) = Some full
                 \<and> snd pc = take MAX_FILE_CHARS full)
           \<and> length (snd pc) \<le> 1500)
     \<and> snd (snippets_loop raw ps ([], 0)) = content_chars adm
     \<and> content_chars adm \<le> 6000 + 1500"
proof -
  from snippets_loop_admitted [of raw ps "[]" 0] obtain adm where
    f: "fst (snippets_loop raw ps ([], 0)) = map block_of adm"
    and t: "snd (snippets_loop raw ps ([], 0)) = content_chars adm"
    and m: "\<forall>pc \<in> set adm. fst pc \<in> set ps
           \<and> (\<exists>full. get_file_content raw (fst pc) = Some full
                 \<and> snd pc = take MAX_FILE_CHARS full)"
    by auto
  have "\<forall>pc \<in> set adm. length (snd pc) \<le> 1500"
    using m by (auto simp add: MAX_FILE_CHARS_def)
  moreover have "content_chars adm \<le> 6000 + 1500"
    using snippets_loop_total_le [of 0 raw ps "[]"] t by simp
  ultimately show ?thesis using f t m by blast
qed

text \<open>
  C1: whatever the selection and whatever the contents, the blocks that the snippet
  budgeter returns are the blocks of the files it admitted, each with the content of its
  file cut to 1500 characters; the running total is the number of content characters of
  those blocks, and it is at most 6000 + 1500. This holds in \<open>build_code_snippets\<close>, whose
  result is these blocks joined, in \<open>scan_local_repo\<close> and in \<open>scan_github_repo\<close>.
\<close>

theorem budget_overshoot_bound:
  "(\<exists>adm. fst (snippets_loop raw file_paths ([], 0)) = map block_of adm
       \<and> build_code_snippets raw file_paths = join [nl, nl] (map block_of adm)
       \<and> (\<forall>pc \<in> set adm. fst pc \<in> set file_paths
             \<and> (\<exists>full. get_file_content raw (fst pc) = Some full
                   \<and> snd pc = take MAX_FILE_CHARS full)
             \<and> length (snd pc) \<le> 1500)
       \<and> snd (snippets_loop raw file_paths ([], 0)) = content_chars adm
       \<and> content_chars adm \<le> 6000 + 1500)
   \<and> (\<exists>adm. fst (local_snippets_loop read key_files ([], 0)) = map block_of adm
       \<and> (\<forall>pc \<in> set adm. fst pc \<in> set key_files
             \<and> (\<exists>full. read (fst pc) = Some full \<and> snd pc = take MAX_FILE_CHARS full)
             \<and> length (snd pc) \<le> 1500)
       \<and> snd (local_snippets_loop read key_files ([], 0)) = content_chars adm
       \<and> content_chars adm \<le> 6000 + 1500)
   \<and> (\<exists>adm. fst (github_snippets_loop raw file_paths ([], 0)) = map block_of adm
       \<and> (\<forall>pc \<in> set adm. fst pc \<in> set file_paths
             \<and> status_code (raw (fst pc)) = 200
             \<and> snd pc = take MAX_FILE_CHARS (resp_text (raw (fst pc)))
             \<and> length (snd pc) \<le> 1500)
       \<and> snd (github_snippets_loop raw file_paths ([], 0)) = content_chars adm
       \<and> content_chars adm \<le> 6000 + 1500)
   \<and> snd (snippets_loop raw file_paths ([], 0)) \<le> 6000 + 1500
   \<and> snd (local_snippets_loop read key_files ([], 0)) \<le> 6000 + 1500
   \<and> snd (github_snippets_loop raw file_paths ([], 0)) \<le> 6000 + 1500"
proof -
  from snippets_loop_run [of raw file_paths] obtain adm where
    a: "fst (snippets_loop raw file_paths ([], 0)) = map block_of adm"
      "\<forall>pc \<in> set adm. fst pc \<in> set file_paths
           \<and> (\<exists>full. get_file_content raw (fst pc) = Some full
                 \<and> snd pc = take MAX_FILE_CHARS full)
           \<and> length (snd pc) \<le> 1500"
      "snd (snippets_loop raw file_paths ([], 0)) = content_chars adm"
      "content_chars adm \<le> 6000 + 1500"
    by blast
  from a(1) have j: "build_code_snippets raw file_paths = join [nl, nl] (map block_of adm)"
    by (simp add: build_code_snippets_def)
  have g: "\<forall>pc \<in> set adm. fst pc \<in> set file_paths
             \<and> status_code (raw (fst pc)) = 200
             \<and> snd pc = take MAX_FILE_CHARS (resp_text (raw (fst pc)))
             \<and> length (snd pc) \<le> 1500"
    using a(2) by (auto simp add: get_file_content_Some)
  from snippets_loop_run [of "endpoint_of read" key_files] obtain ladm where
    l: "fst (local_snippets_loop read key_files ([], 0)) = map block_of ladm"
      "\<forall>pc \<in> set ladm. fst pc \<in> set key_files
           \<and> (\<exists>full. read (fst pc) = Some full \<and> snd pc = take MAX_FILE_CHARS full)
           \<and> length (snd pc) \<le> 1500"
      "snd (local_snippets_loop read key_files ([], 0)) = content_chars ladm"
      "content_chars ladm \<le> 6000 + 1500"
    unfolding local_loop_endpoint get_file_content_endpoint_of by blast
  have first: "\<exists>adm. fst (snippets_loop raw file_paths ([], 0)) = map block_of adm
       \<and> build_code_snippets raw file_paths = join [nl, nl] (map block_of adm)
       \<and> (\<forall>pc \<in> set adm. fst pc \<in> set file_paths
             \<and> (\<exists>full. get_file_content raw (fst pc) = Some full
                   \<and> snd pc = take MAX_FILE_CHARS full)
             \<and> length (snd pc) \<le> 1500)
       \<and> snd (snippets_loop raw file_paths ([], 0)) = content_chars adm
       \<and> content_chars adm \<le> 6000 + 1500"
    using a j by blast
  have second: "\<exists>adm. fst (local_snippets_loop read key_files ([], 0)) = map block_of adm
       \<and> (\<forall>pc \<in> set adm. fst pc \<in> set key_files
             \<and> (\<exists>full. read (fst pc) = Some full \<and> snd pc = take MAX_FILE_CHARS full)
             \<and> length (snd pc) \<le> 1500)
       \<and> snd (local_snippets_loop read key_files ([], 0)) = content_chars adm
       \<and> content_chars adm \<le> 6000 + 1500"
    using l by blast
  have third: "\<exists>adm. fst (github_snippets_loop raw file_paths ([], 0)) = map block_of adm
       \<and> (\<forall>pc \<in> set adm. fst pc \<in> set file_paths
             \<and> status_code (raw (fst pc)) = 200
             \<and> snd pc = take MAX_FILE_CHARS (resp_text (raw (fst pc)))
             \<and> length (snd pc) \<le> 1500)
       \<and> snd (github_snippets_loop raw file_paths ([], 0)) = content_chars adm
       \<and> content_chars adm \<le> 6000 + 1500"
    unfolding github_loop_eq using a g by blast
  have bounds: "snd (snippets_loop raw file_paths ([], 0)) \<le> 6000 + 1500"
    "snd (local_snippets_loop read key_files ([], 0)) \<le> 6000 + 1500"
    "snd (github_snippets_loop raw file_paths ([], 0)) \<le> 6000 + 1500"
    using a(3,4) l(3,4) by (simp_all add: github_loop_eq)
  from first second third bounds show ?thesis by blast
qed

lemma big_file_run:
  "fst (snippets_loop big_file [''main.py''] ([], 0))
     = [snippet_block ''main.py'' (replicate 1500 CHR ''a'')]"
  "snd (snippets_loop big_file [''main.py''] ([], 0)) = 1500"
  by (simp_all add: big_file_def get_file_content_def MAX_TOTAL_CODE_CHARS_def
      MAX_FILE_CHARS_def)

theorem budget_overshoot_bound_witness:
  "\<exists>adm. fst (snippets_loop big_file [''main.py''] ([], 0)) = map block_of adm
     \<and> length adm = 1
     \<and> content_chars adm = 1500
     \<and> content_chars adm \<le> 6000 + 1500
     \<and> snd (snippets_loop big_file [''main.py''] ([], 0)) = content_chars adm"
proof -
  from budget_overshoot_bound [of big_file "[''main.py'']"] obtain adm where
    a: "fst (snippets_loop big_file [''main.py''] ([], 0)) = map block_of adm"
      "snd (snippets_loop big_file [''main.py''] ([], 0)) = content_chars adm"
      "content_chars adm \<le> 6000 + 1500"
    by blast
  from a(1) have "length adm = 1"
    using big_file_run(1) by (metis length_map length_Cons list.size(3) One_nat_def)
  moreover from a(2) have "content_chars adm = 1500"
    using big_file_run(2) by simp
  ultimately show ?thesis using a by blast
qed

lemma snippets_loop_total_ge:
  "\<forall>p \<in> set ps. status_code (raw p) = 200 \<Longrightarrow>
   6000 \<le> tot + sum_list (map (capped_size raw) ps) \<Longrightarrow>
   6000 \<le> snd (snippets_loop raw ps (sn, tot))"
proof (induction ps arbitrary: sn tot)
  case Nil
  then show ?case by simp
next
  case (Cons p ps)
  show ?case
  proof (cases "tot \<ge> MAX_TOTAL_CODE_CHARS")
    case True
    then show ?thesis by (simp add: MAX_TOTAL_CODE_CHARS_def)
  next
    case False
    from Cons.prems(1) have ok: "get_file_content raw p = Some (resp_text (raw p))"
      by (simp add: get_file_content_def)
    have cap: "capped_size raw p = length (take MAX_FILE_CHARS (resp_text (raw p)))"
      by (simp add: capped_size_def content_size_def ok min.commute)
    have "6000 \<le> (tot + length (take MAX_FILE_CHARS (resp_text (raw p))))
              + sum_list (map (capped_size raw) ps)"
      using Cons.prems(2) cap by simp
    moreover have "\<forall>p \<in> set ps. status_code (raw p) = 200"
      using Cons.prems(1) by simp
    ultimately have "6000 \<le> snd (snippets_loop raw ps
        (sn @ [snippet_block p (take MAX_FILE_CHARS (resp_text (raw p)))],
         tot + length (take MAX_FILE_CHARS (resp_text (raw p)))))"
      by (rule Cons.IH [rotated])
    with False ok show ?thesis by (simp add: Let_def)
  qed
qed

text \<open>
  C2 (as stated): when every file of the selection is fetched and the sizes of the files
  as fetched add up to more than 6000, the total is at least 6000. One file of 6001
  characters is cut to 1500: the only block holds 1500 content characters, and the total
  is 1500.
\<close>

theorem budget_untruncated_counterexample:
  "status_code (big_file ''main.py'') = 200
   \<and> 6000 < sum_list (map (content_size big_file) [''main.py''])
   \<and> snd (snippets_loop big_file [''main.py''] ([], 0)) = 1500
   \<and> snd (github_snippets_loop big_file [''main.py''] ([], 0)) = 1500
   \<and> fst (snippets_loop big_file [''main.py''] ([], 0))
       = [snippet_block ''main.py'' (replicate 1500 CHR ''a'')]
   \<and> fst (github_snippets_loop big_file [''main.py''] ([], 0))
       = [snippet_block ''main.py'' (replicate 1500 CHR ''a'')]"
  by (simp add: big_file_def content_size_def get_file_content_def
      MAX_TOTAL_CODE_CHARS_def MAX_FILE_CHARS_def)

text \<open>
  C2 (amended): when every file of the selection is fetched and the sizes of the files,
  each cut to the per-file cap of 1500, add up to more than 6000, the blocks returned are
  the blocks of the admitted files, each with its content cut to the cap, and their
  content characters, which the running total counts, are at least 6000. This holds in
  \<open>build_code_snippets\<close>, whose result is these blocks joined, and in \<open>scan_github_repo\<close>.
\<close>

theorem budget_reached_when_capped_sizes_exceed:
  "\<forall>p \<in> set file_paths. status_code (raw p) = 200 \<Longrightarrow>
   6000 < sum_list (map (capped_size raw) file_paths) \<Longrightarrow>
   (\<exists>adm. fst (snippets_loop raw file_paths ([], 0)) = map block_of adm
       \<and> fst (github_snippets_loop raw file_paths ([], 0)) = map block_of adm
       \<and> build_code_snippets raw file_paths = join [nl, nl] (map block_of adm)
       \<and> (\<forall>pc \<in> set adm. fst pc \<in> set file_paths
             \<and> snd pc = take MAX_FILE_CHARS (resp_text (raw (fst pc))))
       \<and> snd (snippets_loop raw file_paths ([], 0)) = content_chars adm
       \<and> snd (github_snippets_loop raw file_paths ([], 0)) = content_chars adm
       \<and> 6000 \<le> content_chars adm)
   \<and> 6000 \<le> snd (snippets_loop raw file_paths ([], 0))
   \<and> 6000 \<le> snd (github_snippets_loop raw file_paths ([], 0))"
proof -
  assume ok: "\<forall>p \<in> set file_paths. status_code (raw p) = 200"
    and big: "6000 < sum_list (map (capped_size raw) file_paths)"
  from snippets_loop_run [of raw file_paths] obtain adm where
    a: "fst (snippets_loop raw file_paths ([], 0)) = map block_of adm"
      "\<forall>pc \<in> set adm. fst pc \<in> set file_paths
           \<and> (\<exists>full. get_file_content raw (fst pc) = Some full
                 \<and> snd pc = take MAX_FILE_CHARS full)
           \<and> length (snd pc) \<le> 1500"
      "snd (snippets_loop raw file_paths ([], 0)) = content_chars adm"
    by blast
  have ge: "6000 \<le> snd (snippets_loop raw file_paths ([], 0))"
    using snippets_loop_total_ge [of file_paths raw 0 "[]"] ok big by simp
  have m: "\<forall>pc \<in> set adm. fst pc \<in> set file_paths
             \<and> snd pc = take MAX_FILE_CHARS (resp_text (raw (fst pc)))"
    using a(2) by (auto simp add: get_file_content_Some)
  have j: "build_code_snippets raw file_paths = join [nl, nl] (map block_of adm)"
    using a(1) by (simp add: build_code_snippets_def)
  have "\<exists>adm. fst (snippets_loop raw file_paths ([], 0)) = map block_of adm
       \<and> fst (github_snippets_loop raw file_paths ([], 0)) = map block_of adm
       \<and> build_code_snippets raw file_paths = join [nl, nl] (map block_of adm)
       \<and> (\<forall>pc \<in> set adm. fst pc \<in> set file_paths
             \<and> snd pc = take MAX_FILE_CHARS (resp_text (raw (fst pc))))
       \<and> snd (snippets_loop raw file_paths ([], 0)) = content_chars adm
       \<and> snd (github_snippets_loop raw file_paths ([], 0)) = content_chars adm
       \<and> 6000 \<le> content_chars adm"
    unfolding github_loop_eq using a(1,3) m j ge by (intro exI [of _ adm]) simp
  with ge show ?thesis by (simp add: github_loop_eq)
qed

theorem budget_reached_witness:
  "status_code (medium_file ''a.py'') = 200
   \<and> 6000 < sum_list (map (capped_size medium_file)
                 [''a.py'', ''b.py'', ''c.py'', ''d.py'', ''e.py''])
   \<and> 6000 \<le> snd (snippets_loop medium_file
                 [''a.py'', ''b.py'', ''c.py'', ''d.py'', ''e.py''] ([], 0))
   \<and> 6000 \<le> snd (github_snippets_loop medium_file
                 [''a.py'', ''b.py'', ''c.py'', ''d.py'', ''e.py''] ([], 0))
   \<and> (\<exists>adm. build_code_snippets medium_file [''a.py'', ''b.py'', ''c.py'', ''d.py'', ''e.py'']
                = join [nl, nl] (map block_of adm)
         \<and> 6000 \<le> content_chars adm)"
proof -
  have h1: "\<forall>p \<in> set [''a.py'', ''b.py'', ''c.py'', ''d.py'', ''e.py''].
              status_code (medium_file p) = 200"
    by (simp add: medium_file_def)
  have h2: "6000 < sum_list (map (capped_size medium_file)
                     [''a.py'', ''b.py'', ''c.py'', ''d.py'', ''e.py''])"
    by (simp add: capped_size_def content_size_def get_file_content_def medium_file_def
        MAX_FILE_CHARS_def)
  have h3: "status_code (medium_file ''a.py'') = 200"
    by (simp add: medium_file_def)
  from budget_reached_when_capped_sizes_exceed [OF h1 h2] h2 h3 show ?thesis
    by blast
qed

section \<open>The quality gate\<close>

text \<open>
  C6: a text passes the quality gate exactly when it has at least 200 and at most 4000
  characters, at least two \<open>#\<close> and at least 50 words; so a text of 199 characters is
  rejected, one of 200 characters with two \<open>#\<close> and 50 words is accepted, and one of 4001
  characters is rejected.
\<close>

theorem quality_gate_iff:
  "(is_quality_readme readme \<longleftrightarrow>
      200 \<le> length readme \<and> length readme \<le> 4000
      \<and> 2 \<le> count_char CHR ''#'' readme \<and> 50 \<le> length (split_ws readme))
   \<and> (length readme = 199 \<longrightarrow> \<not> is_quality_readme readme)
   \<and> (length readme = 200 \<and> 2 \<le> count_char CHR ''#'' readme
        \<and> 50 \<le> length (split_ws readme) \<longrightarrow> is_quality_readme readme)
   \<and> (length readme = 4001 \<longrightarrow> \<not> is_quality_readme readme)"
  by (auto simp add: is_quality_readme_def MAX_README_CHARS_def Let_def)

lemma headings_text_facts:
  "length headings_text = 200" "count_char CHR ''#'' headings_text = 50"
  "length (split_ws headings_text) = 100"
  by (code_simp)+

theorem quality_gate_witness:
  "length headings_text = 200 \<and> 2 \<le> count_char CHR ''#'' headings_text
   \<and> 50 \<le> length (split_ws headings_text) \<and> is_quality_readme headings_text
   \<and> \<not> is_quality_readme (replicate 199 CHR ''#'')
   \<and> \<not> is_quality_readme (replicate 4001 CHR ''#'')"
  using quality_gate_iff [of headings_text] quality_gate_iff [of "replicate 199 CHR ''#''"]
    quality_gate_iff [of "replicate 4001 CHR ''#''"]
  by (simp add: headings_text_facts)

section \<open>The file-tree listing\<close>

text \<open>Splitting a joined list of lines gives the lines back.\<close>

lemma split_on_no_sep: "sep \<notin> set x \<Longrightarrow> split_on sep x = [x]"
  by (induction x) auto

lemma split_on_append_sep:
  "sep \<notin> set x \<Longrightarrow> split_on sep (x @ sep # r) = x # split_on sep r"
  by (induction x) auto

lemma split_on_join:
  "xs \<noteq> [] \<Longrightarrow> \<forall>x \<in> set xs. sep \<notin> set x \<Longrightarrow> split_on sep (join [sep] xs) = xs"
proof (induction "[sep]" xs rule: join.induct)
  case 1
  then show ?case by simp
next
  case (2 x)
  then show ?case by (simp add: split_on_no_sep)
next
  case (3 x y ys)
  then show ?case by (simp add: split_on_append_sep)
qed

lemma join_snoc: "xs \<noteq> [] \<Longrightarrow> join sep (xs @ [y]) = join sep xs @ sep @ y"
  by (induction sep xs rule: join.induct) auto

text \<open>The listing of \<open>inference.py\<close>, which appends the marker to the joined string, is
  the listing of \<open>prepare_data.py\<close>, which appends it to the list.\<close>

lemma file_tree_of_eq:
  "file_tree_of paths =
     (if length paths > 80 then join [nl] (take 80 paths @ [truncation_marker])
      else join [nl] paths)"
proof (cases "length paths > 80")
  case True
  then have "take 80 paths \<noteq> []" by auto
  with True show ?thesis by (simp add: file_tree_of_def join_snoc)
next
  case False
  then show ?thesis by (simp add: file_tree_of_def)
qed

text \<open>The marker starts with a dot, so the filter keeps no entry equal to it.\<close>

lemma marker_not_kept: "tree_keep it \<Longrightarrow> item_path it \<noteq> truncation_marker"
  by (auto simp add: tree_keep_def truncation_marker_def)

lemma marker_not_github_kept: "github_keep it \<Longrightarrow> item_path it \<noteq> truncation_marker"
  by (auto simp add: github_keep_def truncation_marker_def)

lemma marker_not_in_tree_paths: "truncation_marker \<notin> set (tree_paths tree)"
proof
  assume "truncation_marker \<in> set (tree_paths tree)"
  then obtain it where "tree_keep it" "item_path it = truncation_marker"
    by (auto simp add: tree_paths_def)
  then show False using marker_not_kept by blast
qed

lemma marker_not_in_github_paths: "truncation_marker \<notin> set (github_paths tree)"
proof
  assume "truncation_marker \<in> set (github_paths tree)"
  then obtain it where "github_keep it" "item_path it = truncation_marker"
    by (auto simp add: github_paths_def)
  then show False using marker_not_github_kept by blast
qed

lemma marker_no_nl: "nl \<notin> set truncation_marker"
  by (simp add: truncation_marker_def nl_def)

lemma listing_lines:
  assumes "\<forall>p \<in> set paths. nl \<notin> set p"
  shows "length paths > 80 \<Longrightarrow>
           split_on nl (join [nl] (take 80 paths @ [truncation_marker]))
             = take 80 paths @ [truncation_marker]"
    and "paths \<noteq> [] \<Longrightarrow> split_on nl (join [nl] paths) = paths"
proof -
  have "\<forall>p \<in> set (take 80 paths @ [truncation_marker]). nl \<notin> set p"
    using assms marker_no_nl by (auto dest: in_set_takeD)
  then show "split_on nl (join [nl] (take 80 paths @ [truncation_marker]))
             = take 80 paths @ [truncation_marker]"
    by (intro split_on_join) simp_all
  show "paths \<noteq> [] \<Longrightarrow> split_on nl (join [nl] paths) = paths"
    using assms by (intro split_on_join) simp_all
qed

lemma listing_no_marker:
  assumes "\<forall>p \<in> set paths. nl \<notin> set p" and "truncation_marker \<notin> set paths"
  shows "truncation_marker \<notin> set (split_on nl (join [nl] paths))"
proof (cases "paths = []")
  case True
  then show ?thesis by (simp add: truncation_marker_def)
next
  case False
  with assms listing_lines(2) [of paths] show ?thesis by simp
qed

lemma tree_paths_no_nl:
  "\<forall>it \<in> set tree. nl \<notin> set (item_path it) \<Longrightarrow> \<forall>p \<in> set (tree_paths tree). nl \<notin> set p"
  by (auto simp add: tree_paths_def)

lemma github_paths_no_nl:
  "\<forall>it \<in> set tree. nl \<notin> set (item_path it) \<Longrightarrow> \<forall>p \<in> set (github_paths tree). nl \<notin> set p"
  by (auto simp add: github_paths_def)

lemma listing_more:
  assumes "\<forall>p \<in> set paths. nl \<notin> set p" and "truncation_marker \<notin> set paths"
    and "length paths > 80"
  shows "split_on nl (join [nl] (take 80 paths @ [truncation_marker]))
           = take 80 paths @ [truncation_marker]
         \<and> count_list (split_on nl (join [nl] (take 80 paths @ [truncation_marker])))
             truncation_marker = 1"
proof -
  have "count_list (take 80 paths @ [truncation_marker]) truncation_marker = 1"
    using assms(2) by (auto simp add: count_list_0_iff dest: in_set_takeD)
  with listing_lines(1) [OF assms(1) assms(3)] show ?thesis by simp
qed

lemma listing_fewer:
  assumes "\<forall>p \<in> set paths. nl \<notin> set p" and "truncation_marker \<notin> set paths"
  shows "(paths \<noteq> [] \<longrightarrow> split_on nl (join [nl] paths) = paths)
         \<and> truncation_marker \<notin> set (split_on nl (join [nl] paths))"
  using listing_lines(2) [OF assms(1)] listing_no_marker [OF assms] by simp

lemma file_tree_lines:
  assumes "\<forall>it \<in> set tree. nl \<notin> set (item_path it)"
  shows "sorted (tree_paths tree) \<and> sorted (github_paths tree)
    \<and> (length (tree_paths tree) > 80 \<longrightarrow>
           build_file_tree_string tree 80
             = join [nl] (take 80 (tree_paths tree) @ [truncation_marker])
           \<and> split_on nl (build_file_tree_string tree 80)
             = take 80 (tree_paths tree) @ [truncation_marker]
           \<and> count_list (split_on nl (build_file_tree_string tree 80)) truncation_marker = 1)
    \<and> (length (tree_paths tree) \<le> 80 \<longrightarrow>
           build_file_tree_string tree 80 = join [nl] (tree_paths tree)
           \<and> (tree_paths tree \<noteq> [] \<longrightarrow>
                split_on nl (build_file_tree_string tree 80) = tree_paths tree)
           \<and> truncation_marker \<notin> set (split_on nl (build_file_tree_string tree 80)))
    \<and> (length (github_paths tree) > 80 \<longrightarrow>
           file_tree_of (github_paths tree)
             = join [nl] (take 80 (github_paths tree) @ [truncation_marker])
           \<and> split_on nl (file_tree_of (github_paths tree))
             = take 80 (github_paths tree) @ [truncation_marker]
           \<and> count_list (split_on nl (file_tree_of (github_paths tree))) truncation_marker = 1)
    \<and> (length (github_paths tree) \<le> 80 \<longrightarrow>
           file_tree_of (github_paths tree) = join [nl] (github_paths tree)
           \<and> (github_paths tree \<noteq> [] \<longrightarrow>
                split_on nl (file_tree_of (github_paths tree)) = github_paths tree)
           \<and> truncation_marker \<notin> set (split_on nl (file_tree_of (github_paths tree))))"
proof -
  note t = tree_paths_no_nl [OF assms] and g = github_paths_no_nl [OF assms]
  have srt: "sorted (tree_paths tree) \<and> sorted (github_paths tree)"
    by (simp add: tree_paths_def github_paths_def)
  have t1: "length (tree_paths tree) > 80 \<Longrightarrow>
           build_file_tree_string tree 80
             = join [nl] (take 80 (tree_paths tree) @ [truncation_marker])
           \<and> split_on nl (build_file_tree_string tree 80)
             = take 80 (tree_paths tree) @ [truncation_marker]
           \<and> count_list (split_on nl (build_file_tree_string tree 80)) truncation_marker = 1"
  proof -
    assume l: "length (tree_paths tree) > 80"
    then have e: "build_file_tree_string tree 80
        = join [nl] (take 80 (tree_paths tree) @ [truncation_marker])"
      by (simp add: build_file_tree_string_def)
    show ?thesis
      unfolding e using listing_more [OF t marker_not_in_tree_paths l] by blast
  qed
  have t2: "length (tree_paths tree) \<le> 80 \<Longrightarrow>
           build_file_tree_string tree 80 = join [nl] (tree_paths tree)
           \<and> (tree_paths tree \<noteq> [] \<longrightarrow>
                split_on nl (build_file_tree_string tree 80) = tree_paths tree)
           \<and> truncation_marker \<notin> set (split_on nl (build_file_tree_string tree 80))"
    using listing_fewer [OF t marker_not_in_tree_paths]
    by (simp add: build_file_tree_string_def)
  have g1: "length (github_paths tree) > 80 \<Longrightarrow>
           file_tree_of (github_paths tree)
             = join [nl] (take 80 (github_paths tree) @ [truncation_marker])
           \<and> split_on nl (file_tree_of (github_paths tree))
             = take 80 (github_paths tree) @ [truncation_marker]
           \<and> count_list (split_on nl (file_tree_of (github_paths tree))) truncation_marker = 1"
  proof -
    assume l: "length (github_paths tree) > 80"
    then have e: "file_tree_of (github_paths tree)
        = join [nl] (take 80 (github_paths tree) @ [truncation_marker])"
      by (simp add: file_tree_of_eq)
    show ?thesis
      unfolding e using listing_more [OF g marker_not_in_github_paths l] by blast
  qed
  have g2: "length (github_paths tree) \<le> 80 \<Longrightarrow>
           file_tree_of (github_paths tree) = join [nl] (github_paths tree)
           \<and> (github_paths tree \<noteq> [] \<longrightarrow>
                split_on nl (file_tree_of (github_paths tree)) = github_paths tree)
           \<and> truncation_marker \<notin> set (split_on nl (file_tree_of (github_paths tree)))"
    using listing_fewer [OF g marker_not_in_github_paths]
    by (simp add: file_tree_of_eq)
  from srt t1 t2 g1 g2 show ?thesis by blast
qed

text \<open>
  C7: the entries listed are sorted; with more than 80 of them the listing string is the
  first 80 entries followed by the truncation marker, one per line, and the marker is
  exactly one of its lines; with 80 or fewer the listing string is all the entries, one per
  line, and no line is the marker. The snippet budget is no argument of the listing. This
  holds for \<open>build_file_tree_string\<close> and for the listing of \<open>scan_github_repo\<close>; the
  reading by lines is for trees whose paths hold no newline character.
\<close>

theorem file_tree_truncation:
  "sorted (tree_paths tree) \<and> sorted (github_paths tree)
   \<and> truncation_marker \<notin> set (tree_paths tree)
   \<and> truncation_marker \<notin> set (github_paths tree)
   \<and> (length (tree_paths tree) > 80 \<longrightarrow>
        build_file_tree_string tree 80
          = join [nl] (take 80 (tree_paths tree) @ [truncation_marker]))
   \<and> (length (tree_paths tree) \<le> 80 \<longrightarrow>
        build_file_tree_string tree 80 = join [nl] (tree_paths tree))
   \<and> (length (github_paths tree) > 80 \<longrightarrow>
        file_tree_of (github_paths tree)
          = join [nl] (take 80 (github_paths tree) @ [truncation_marker]))
   \<and> (length (github_paths tree) \<le> 80 \<longrightarrow>
        file_tree_of (github_paths tree) = join [nl] (github_paths tree))
   \<and> ((\<forall>it \<in> set tree. nl \<notin> set (item_path it)) \<longrightarrow>
        (length (tree_paths tree) > 80 \<longrightarrow>
           split_on nl (build_file_tree_string tree 80)
             = take 80 (tree_paths tree) @ [truncation_marker]
           \<and> count_list (split_on nl (build_file_tree_string tree 80)) truncation_marker = 1)
        \<and> (length (tree_paths tree) \<le> 80 \<longrightarrow>
           (tree_paths tree \<noteq> [] \<longrightarrow>
              split_on nl (build_file_tree_string tree 80) = tree_paths tree)
           \<and> truncation_marker \<notin> set (split_on nl (build_file_tree_string tree 80)))
        \<and> (length (github_paths tree) > 80 \<longrightarrow>
           split_on nl (file_tree_of (github_paths tree))
             = take 80 (github_paths tree) @ [truncation_marker]
           \<and> count_list (split_on nl (file_tree_of (github_paths tree))) truncation_marker = 1)
        \<and> (length (github_paths tree) \<le> 80 \<longrightarrow>
           (github_paths tree \<noteq> [] \<longrightarrow>
              split_on nl (file_tree_of (github_paths tree)) = github_paths tree)
           \<and> truncation_marker \<notin> set (split_on nl (file_tree_of (github_paths tree)))))"
proof -
  have srt: "sorted (tree_paths tree) \<and> sorted (github_paths tree)"
    by (simp add: tree_paths_def github_paths_def)
  have t1: "length (tree_paths tree) > 80 \<longrightarrow>
        build_file_tree_string tree 80
          = join [nl] (take 80 (tree_paths tree) @ [truncation_marker])"
    by (simp add: build_file_tree_string_def)
  have t2: "length (tree_paths tree) \<le> 80 \<longrightarrow>
        build_file_tree_string tree 80 = join [nl] (tree_paths tree)"
    by (simp add: build_file_tree_string_def)
  have g1: "length (github_paths tree) > 80 \<longrightarrow>
        file_tree_of (github_paths tree)
          = join [nl] (take 80 (github_paths tree) @ [truncation_marker])"
    by (simp add: file_tree_of_eq)
  have g2: "length (github_paths tree) \<le> 80 \<longrightarrow>
        file_tree_of (github_paths tree) = join [nl] (github_paths tree)"
    by (simp add: file_tree_of_eq)
  from srt t1 t2 g1 g2 marker_not_in_tree_paths [of tree] marker_not_in_github_paths [of tree]
    file_tree_lines [of tree]
  show ?thesis by blast
qed

lemma grid_facts:
  "\<forall>it \<in> set grid_tree. nl \<notin> set (item_path it)"
  "length (tree_paths grid_tree) = 81"
  "length (github_paths grid_tree) = 81"
  by code_simp+

lemma small_tree_facts:
  "\<forall>it \<in> set small_tree. nl \<notin> set (item_path it)"
  "tree_paths small_tree = [''src'', ''src/main.py'']"
  "github_paths small_tree = [''src'', ''src/main.py'']"
  by code_simp+

theorem file_tree_truncation_witness:
  "length (tree_paths grid_tree) = 81
   \<and> split_on nl (build_file_tree_string grid_tree 80)
       = take 80 (tree_paths grid_tree) @ [truncation_marker]
   \<and> split_on nl (file_tree_of (github_paths grid_tree))
       = take 80 (github_paths grid_tree) @ [truncation_marker]
   \<and> tree_paths small_tree = [''src'', ''src/main.py'']
   \<and> split_on nl (build_file_tree_string small_tree 80) = tree_paths small_tree
   \<and> split_on nl (file_tree_of (github_paths small_tree)) = github_paths small_tree"
proof -
  have g: "length (tree_paths grid_tree) > 80" "length (github_paths grid_tree) > 80"
    by (simp_all add: grid_facts)
  have s: "length (tree_paths small_tree) \<le> 80" "tree_paths small_tree \<noteq> []"
    "length (github_paths small_tree) \<le> 80" "github_paths small_tree \<noteq> []"
    by (simp_all add: small_tree_facts)
  from file_tree_truncation [of grid_tree] grid_facts(1) g
  have A: "split_on nl (build_file_tree_string grid_tree 80)
       = take 80 (tree_paths grid_tree) @ [truncation_marker]"
    "split_on nl (file_tree_of (github_paths grid_tree))
       = take 80 (github_paths grid_tree) @ [truncation_marker]"
    by blast+
  from file_tree_truncation [of small_tree] small_tree_facts(1) s
  have B: "split_on nl (build_file_tree_string small_tree 80) = tree_paths small_tree"
    "split_on nl (file_tree_of (github_paths small_tree)) = github_paths small_tree"
    by blast+
  from A B grid_facts(2) small_tree_facts(2) show ?thesis by blast
qed

section \<open>The selection of key files\<close>

text \<open>The loop with \<open>seen\<close> and the test \<open>not in key_files\<close> compute the same list.\<close>

lemma dedup_loop_append_new: "dedup_loop (set acc) acc xs = append_new acc xs"
proof (induction xs arbitrary: acc)
  case Nil
  show ?case by simp
next
  case (Cons p ps)
  from Cons.IH [of "acc @ [p]"] Cons.IH [of acc] show ?case by simp
qed

lemma append_new_append: "append_new acc (xs @ ys) = append_new (append_new acc xs) ys"
  by (induction xs arbitrary: acc) auto

lemma append_new_distinct: "distinct (acc @ xs) \<Longrightarrow> append_new acc xs = acc @ xs"
  by (induction xs arbitrary: acc) auto




lemma select_key_files_eq:
  "select_key_files tree =
     take 10 (append_new (append_new [] (map item_path (filter is_important tree)))
                (map item_path (filter is_code tree)))"
  using dedup_loop_append_new [of "[]"]
  by (simp add: select_key_files_def append_new_append)











section \<open>A failed request for the tree\<close>

text \<open>
  C3 (as stated): at every call site a status other than 200 on the tree request gives no
  snapshot and raises nothing. \<open>scan_github_repo\<close> calls \<open>raise_for_status\<close>: at status
  404 it raises \<open>HTTPError\<close> to its caller.
\<close>

theorem tree_fetch_failure_counterexample:
  "tree_status not_found \<noteq> 200
   \<and> scan_github_repo ''octo/demo'' not_found demo_raw = Inl (HTTPError 404)"
  by (simp add: scan_github_repo_def not_found_def)

text \<open>
  C3 (amended): in the dataset collection a status other than 200 on the tree request
  gives no tree (\<open>get_repo_tree\<close> returns \<open>None\<close>) and the repository is skipped
  (\<open>process_repo\<close> returns \<open>None\<close>), nothing being raised; \<open>scan_github_repo\<close> raises
  \<open>HTTPError\<close> to its caller for every status from 400 to 599.
\<close>

theorem tree_fetch_failure:
  "(tree_status api \<noteq> 200 \<longrightarrow>
      get_repo_tree api = None \<and> process_repo info api raw = None)
   \<and> (length (split_on CHR ''/'' owner_repo) = 2
        \<and> 400 \<le> tree_status api \<and> tree_status api < 600 \<longrightarrow>
      scan_github_repo owner_repo api raw = Inl (HTTPError (tree_status api)))"
  by (simp add: get_repo_tree_def process_repo_def scan_github_repo_def)

theorem tree_fetch_failure_witness:
  "tree_status not_found \<noteq> 200
   \<and> get_repo_tree not_found = None \<and> process_repo demo_info not_found demo_raw = None
   \<and> length (split_on CHR ''/'' ''octo/demo'') = 2
   \<and> scan_github_repo ''octo/demo'' not_found demo_raw = Inl (HTTPError (tree_status not_found))"
proof -
  have h: "tree_status not_found \<noteq> 200" "length (split_on CHR ''/'' ''octo/demo'') = 2"
    "400 \<le> tree_status not_found" "tree_status not_found < 600"
    by (simp_all add: not_found_def)
  from tree_fetch_failure [of not_found demo_info demo_raw "''octo/demo''"] h
  show ?thesis by blast
qed

section \<open>The three call sites compared\<close>

lemma prep_github_selection:
  "distinct (map item_path (filter is_important tree)) \<Longrightarrow>
     select_key_files tree = github_key_files tree"
  using append_new_distinct [of "[]" "map item_path (filter is_important tree)"]
  by (simp add: select_key_files_eq github_key_files_def)

lemma distinct_important:
  "distinct (map item_path tree) \<Longrightarrow> distinct (map item_path (filter is_important tree))"
  by (simp add: distinct_map_filter)

lemma egg_free_paths:
  "\<forall>it \<in> set tree. \<not> contains (item_path it) ''.egg-info'' \<Longrightarrow>
     tree_paths tree = github_paths tree"
proof -
  assume "\<forall>it \<in> set tree. \<not> contains (item_path it) ''.egg-info''"
  then have "filter tree_keep tree = filter github_keep tree"
    by (intro filter_cong) (auto simp add: tree_keep_def github_keep_def)
  then show ?thesis by (simp add: tree_paths_def github_paths_def)
qed

lemma build_file_tree_string_80:
  "build_file_tree_string tree 80 = file_tree_of (tree_paths tree)"
  by (simp add: build_file_tree_string_def file_tree_of_eq)

lemma local_loop_fetch:
  "local_snippets_loop (get_file_content raw) fs st = snippets_loop raw fs st"
proof (induction fs arbitrary: st)
  case Nil
  show ?case by (cases st) simp
next
  case (Cons f fs)
  show ?case by (cases st) (simp add: Cons.IH Let_def split: option.splits)
qed

lemma local_loop_eq:
  assumes "\<forall>f. read f = get_file_content raw f"
  shows "local_snippets_loop read fs st = snippets_loop raw fs st"
proof -
  from assms have "read = get_file_content raw" by (intro ext) simp
  then show ?thesis by (simp add: local_loop_fetch)
qed

lemma local_key_files_eq: "local_key_files fs = github_key_files (map blob_entry fs)"
proof -
  have "map item_path (filter is_important (map blob_entry fs))
        = filter (\<lambda>f. lower (basename f) \<in> set IMPORTANT_FILES) fs"
    by (induction fs) (simp_all add: is_important_def blob_entry_def)
  moreover have "map item_path (filter is_code (map blob_entry fs))
        = filter (\<lambda>f. lower (splitext_ext f) \<in> set CODE_EXTENSIONS
                    \<and> count_char CHR ''/'' f \<le> 2) fs"
    by (induction fs) (simp_all add: is_code_def blob_entry_def)
  ultimately show ?thesis by (simp add: local_key_files_def github_key_files_def)
qed

lemma local_paths:
  assumes "\<forall>f \<in> set fs. github_keep (blob_entry f)" and "sorted fs"
  shows "github_paths (map blob_entry fs) = fs"
proof -
  have "filter github_keep (map blob_entry fs) = map blob_entry fs"
    using assms(1) by (simp add: filter_id_conv)
  moreover have "map item_path (map blob_entry fs) = fs"
    by (induction fs) (simp_all add: blob_entry_def)
  ultimately show ?thesis
    using assms(2) by (simp add: github_paths_def sort_key_id_if_sorted)
qed

lemma basename_no_slash: "CHR ''/'' \<notin> set (basename p)"
  by (auto simp add: basename_def dest: set_takeWhileD)

lemma scan_github_repo_ok:
  assumes "tree_status api = 200" and "tree_json api = Some tree"
    and "length (split_on CHR ''/'' owner_repo) = 2"
  shows "scan_github_repo owner_repo api raw =
           Inr (owner_repo, file_tree_of (github_paths tree),
                build_code_snippets raw (github_key_files tree))"
  using assms by (simp add: scan_github_repo_def build_code_snippets_def github_loop_eq)

text \<open>
  C4 (as stated): on the same tree and the same contents the three call sites give the
  same listing, selection and snippets. The listing of \<open>build_file_tree_string\<close> leaves
  out the paths containing \<open>.egg-info\<close>, that of \<open>scan_github_repo\<close> keeps them.
\<close>

theorem call_sites_differ_counterexample:
  "distinct (map item_path egg_tree)
   \<and> build_file_tree_string egg_tree 80 = ''main.py''
   \<and> scan_github_repo ''octo/demo'' egg_api demo_raw
       = Inr (''octo/demo'',
              ''main.py'' @ [nl] @ ''pkg.egg-info'' @ [nl] @ ''pkg.egg-info/PKG-INFO'',
              build_code_snippets demo_raw (select_key_files egg_tree))"
  by code_simp

text \<open>
  C4 (amended): on a tree of distinct paths and with the same contents, the dataset
  collection and \<open>scan_github_repo\<close> select the same files and build the same snippet
  string, and the same listing when no path of the tree contains \<open>.egg-info\<close>.
  \<open>scan_local_repo\<close> selects from its list of files what \<open>scan_github_repo\<close> selects from
  the tree of one blob per file, builds the same snippet string when reading a file gives
  what fetching it gives, and returns the same listing and the same snippet string when
  moreover every file walked passes the filter of the remote listing. The names returned
  differ: \<open>scan_local_repo\<close> gives the last component of the directory's path, which
  holds no slash, \<open>scan_github_repo\<close> gives \<open>owner/repo\<close>.
\<close>

theorem call_sites_agree:
  "(distinct (map item_path tree) \<longrightarrow> select_key_files tree = github_key_files tree)
   \<and> build_code_snippets raw ps = join [nl, nl] (fst (github_snippets_loop raw ps ([], 0)))
   \<and> ((\<forall>it \<in> set tree. \<not> contains (item_path it) ''.egg-info'') \<longrightarrow>
        build_file_tree_string tree 80 = file_tree_of (github_paths tree))
   \<and> (distinct (map item_path tree)
        \<and> (\<forall>it \<in> set tree. \<not> contains (item_path it) ''.egg-info'')
        \<and> tree_status api = 200 \<and> tree_json api = Some tree
        \<and> length (split_on CHR ''/'' owner_repo) = 2 \<longrightarrow>
        scan_github_repo owner_repo api raw =
          Inr (owner_repo, build_file_tree_string tree 80,
               build_code_snippets raw (select_key_files tree)))
   \<and> local_key_files fs = github_key_files (map blob_entry fs)
   \<and> ((\<forall>f. read f = get_file_content raw f) \<longrightarrow>
        local_snippets_loop read ps ([], 0) = github_snippets_loop raw ps ([], 0))
   \<and> ((\<forall>f. read f = get_file_content raw f)
        \<and> (\<forall>f \<in> set (local_files root). github_keep (blob_entry f))
        \<and> tree_status api = 200
        \<and> tree_json api = Some (map blob_entry (local_files root))
        \<and> length (split_on CHR ''/'' owner_repo) = 2 \<longrightarrow>
        scan_github_repo owner_repo api raw
          = Inr (owner_repo, snd (scan_local_repo repo_path root read)))
   \<and> fst (scan_local_repo repo_path root read) = basename repo_path
   \<and> CHR ''/'' \<notin> set (fst (scan_local_repo repo_path root read))"
proof -
  have a: "distinct (map item_path tree) \<longrightarrow> select_key_files tree = github_key_files tree"
    using prep_github_selection distinct_important by blast
  have b: "build_code_snippets raw ps
            = join [nl, nl] (fst (github_snippets_loop raw ps ([], 0)))"
    by (simp add: build_code_snippets_def github_loop_eq)
  have c: "(\<forall>it \<in> set tree. \<not> contains (item_path it) ''.egg-info'') \<longrightarrow>
        build_file_tree_string tree 80 = file_tree_of (github_paths tree)"
    using egg_free_paths [of tree] by (simp add: build_file_tree_string_80)
  have d: "distinct (map item_path tree)
        \<and> (\<forall>it \<in> set tree. \<not> contains (item_path it) ''.egg-info'')
        \<and> tree_status api = 200 \<and> tree_json api = Some tree
        \<and> length (split_on CHR ''/'' owner_repo) = 2 \<longrightarrow>
        scan_github_repo owner_repo api raw =
          Inr (owner_repo, build_file_tree_string tree 80,
               build_code_snippets raw (select_key_files tree))"
    using a c scan_github_repo_ok [of api tree owner_repo raw] by simp
  have e: "local_key_files fs = github_key_files (map blob_entry fs)"
    by (rule local_key_files_eq)
  have f: "(\<forall>f. read f = get_file_content raw f) \<longrightarrow>
        local_snippets_loop read ps ([], 0) = github_snippets_loop raw ps ([], 0)"
    using local_loop_eq [of read raw ps] by (simp add: github_loop_eq)
  have g: "(\<forall>f. read f = get_file_content raw f)
        \<and> (\<forall>f \<in> set (local_files root). github_keep (blob_entry f))
        \<and> tree_status api = 200
        \<and> tree_json api = Some (map blob_entry (local_files root))
        \<and> length (split_on CHR ''/'' owner_repo) = 2 \<longrightarrow>
        scan_github_repo owner_repo api raw
          = Inr (owner_repo, snd (scan_local_repo repo_path root read))"
  proof (intro impI, elim conjE)
    assume r: "\<forall>f. read f = get_file_content raw f"
      and k: "\<forall>f \<in> set (local_files root). github_keep (blob_entry f)"
      and s: "tree_status api = 200"
      and j: "tree_json api = Some (map blob_entry (local_files root))"
      and l: "length (split_on CHR ''/'' owner_repo) = 2"
    have srt: "sorted (local_files root)" by (simp add: local_files_def)
    have p: "github_paths (map blob_entry (local_files root)) = local_files root"
      using local_paths [OF k srt] .
    have "snd (scan_local_repo repo_path root read) =
            (file_tree_of (local_files root),
             build_code_snippets raw (local_key_files (local_files root)))"
      using local_loop_eq [OF r]
      by (simp add: scan_local_repo_def Let_def build_code_snippets_def)
    with scan_github_repo_ok [OF s j l, of raw] p show
      "scan_github_repo owner_repo api raw
         = Inr (owner_repo, snd (scan_local_repo repo_path root read))"
      by (simp add: local_key_files_eq)
  qed
  have h: "fst (scan_local_repo repo_path root read) = basename repo_path"
    by (simp add: scan_local_repo_def Let_def)
  have i: "CHR ''/'' \<notin> set (fst (scan_local_repo repo_path root read))"
    unfolding h using basename_no_slash .
  from a b c d e f g h i show ?thesis by blast
qed

lemma demo_facts:
  "distinct (map item_path demo_tree)"
  "\<forall>it \<in> set demo_tree. \<not> contains (item_path it) ''.egg-info''"
  "tree_status demo_api = 200" "tree_json demo_api = Some demo_tree"
  "length (split_on CHR ''/'' ''octo/demo'') = 2"
  "\<forall>f \<in> set (local_files demo_root). github_keep (blob_entry f)"
  "tree_json demo_api = Some (map blob_entry (local_files demo_root))"
  by code_simp+

theorem call_sites_agree_witness:
  "distinct (map item_path demo_tree)
   \<and> select_key_files demo_tree = github_key_files demo_tree
   \<and> scan_github_repo ''octo/demo'' demo_api demo_raw =
       Inr (''octo/demo'', build_file_tree_string demo_tree 80,
            build_code_snippets demo_raw (select_key_files demo_tree))
   \<and> scan_github_repo ''octo/demo'' demo_api demo_raw =
       Inr (''octo/demo'',
            snd (scan_local_repo ''/home/octo/demo'' demo_root (get_file_content demo_raw)))
   \<and> fst (scan_local_repo ''/home/octo/demo'' demo_root (get_file_content demo_raw))
       = ''demo''"
proof -
  have r: "\<forall>f. get_file_content demo_raw f = get_file_content demo_raw f" by simp
  have n: "basename ''/home/octo/demo'' = ''demo''" by (simp add: basename_def)
  note t = call_sites_agree [of demo_tree demo_raw _ demo_api "''octo/demo''" _
      "get_file_content demo_raw" demo_root "''/home/octo/demo''"]
  from t demo_facts(1) have A: "select_key_files demo_tree = github_key_files demo_tree"
    by blast
  from t demo_facts(1-5)
  have B: "scan_github_repo ''octo/demo'' demo_api demo_raw =
       Inr (''octo/demo'', build_file_tree_string demo_tree 80,
            build_code_snippets demo_raw (select_key_files demo_tree))"
    by blast
  from t r demo_facts(3,5,6,7)
  have C: "scan_github_repo ''octo/demo'' demo_api demo_raw =
       Inr (''octo/demo'',
            snd (scan_local_repo ''/home/octo/demo'' demo_root (get_file_content demo_raw)))"
    by blast
  from t have "fst (scan_local_repo ''/home/octo/demo'' demo_root (get_file_content demo_raw))
       = basename ''/home/octo/demo''"
    by blast
  with n have D: "fst (scan_local_repo ''/home/octo/demo'' demo_root (get_file_content demo_raw))
       = ''demo''"
    by (simp only:)
  from demo_facts(1) A B C D show ?thesis by blast
qed

section \<open>The records of the dataset\<close>

lemma find_is_readme_Some:
  "find is_readme tree = Some it \<Longrightarrow> it \<in> set tree \<and> is_readme it"
  by (auto simp add: find_Some_iff)

lemma process_repo_Some:
  assumes "process_repo info api raw = Some ex"
  shows "code_snippets ex \<noteq> []
    \<and> (\<exists>tree it fetched. get_repo_tree api = Some tree \<and> it \<in> set tree \<and> is_readme it
          \<and> find is_readme tree = Some it
          \<and> get_file_content raw (item_path it) = Some fetched
          \<and> readme_content ex = clean_readme fetched
          \<and> is_quality_readme (readme_content ex)
          \<and> code_snippets ex = build_code_snippets raw (select_key_files tree)
          \<and> file_tree ex = build_file_tree_string tree 80)"
proof -
  from assms obtain tree where t: "get_repo_tree api = Some tree"
    by (auto simp add: process_repo_def split: option.splits)
  from assms t obtain it where i: "find is_readme tree = Some it"
    by (auto simp add: process_repo_def split: option.splits)
  from assms t i obtain fetched where f: "get_file_content raw (item_path it) = Some fetched"
    by (auto simp add: process_repo_def split: option.splits)
  from assms t i f have q: "is_quality_readme (clean_readme fetched)"
    by (auto simp add: process_repo_def Let_def split: if_splits)
  from assms t i f q have c: "build_code_snippets raw (select_key_files tree) \<noteq> []"
    by (auto simp add: process_repo_def Let_def split: if_splits)
  from assms t i f q c have e: "code_snippets ex = build_code_snippets raw (select_key_files tree)"
    "readme_content ex = clean_readme fetched" "file_tree ex = build_file_tree_string tree 80"
    by (auto simp add: process_repo_def Let_def)
  from find_is_readme_Some [OF i] t i f q c e show ?thesis by auto
qed

lemma process_repo_None:
  "get_repo_tree api = None \<Longrightarrow> process_repo info api raw = None"
  "get_repo_tree api = Some tree \<Longrightarrow> find is_readme tree = None \<Longrightarrow>
     process_repo info api raw = None"
  "get_repo_tree api = Some tree \<Longrightarrow> find is_readme tree = Some it \<Longrightarrow>
     get_file_content raw (item_path it) = None \<Longrightarrow> process_repo info api raw = None"
  "get_repo_tree api = Some tree \<Longrightarrow> find is_readme tree = Some it \<Longrightarrow>
     get_file_content raw (item_path it) = Some fetched \<Longrightarrow>
     \<not> is_quality_readme (clean_readme fetched) \<Longrightarrow> process_repo info api raw = None"
  "get_repo_tree api = Some tree \<Longrightarrow>
     build_code_snippets raw (select_key_files tree) = [] \<Longrightarrow> process_repo info api raw = None"
  by (auto simp add: process_repo_def Let_def split: option.splits)

lemma collect_page_mem:
  "e \<in> set (collect_page repos) \<Longrightarrow>
     \<exists>info api raw. (info, api, raw) \<in> set repos \<and> process_repo info api raw = Some e"
proof -
  assume "e \<in> set (collect_page repos)"
  then obtain info api raw where m: "(info, api, raw) \<in> set repos"
    and e: "e \<in> set (case process_repo info api raw of None \<Rightarrow> [] | Some ex \<Rightarrow> [ex])"
    by (auto simp add: collect_page_def)
  from e have "process_repo info api raw = Some e"
    by (cases "process_repo info api raw") auto
  with m show ?thesis by blast
qed

text \<open>
  C10: an example produced by \<open>process_repo\<close> has a non-empty snippet string, and its
  README is the cleaned text of a README file of the tree, fetched, that passes the quality
  gate. When the tree has no README, when the fetch of the README fails, when the gate
  rejects the cleaned text or when the snippet string is empty, there is no example. So
  every example collected from a page of repositories has a non-empty snippet string and
  a README that passes the gate.
\<close>

theorem process_repo_record:
  "(process_repo info api raw = Some ex \<longrightarrow>
      code_snippets ex \<noteq> []
      \<and> (\<exists>tree it fetched. get_repo_tree api = Some tree \<and> it \<in> set tree \<and> is_readme it
            \<and> get_file_content raw (item_path it) = Some fetched
            \<and> readme_content ex = clean_readme fetched
            \<and> is_quality_readme (readme_content ex)))
   \<and> (get_repo_tree api = Some tree \<and> (\<forall>it \<in> set tree. \<not> is_readme it) \<longrightarrow>
        process_repo info api raw = None)
   \<and> (get_repo_tree api = Some tree \<and> find is_readme tree = Some it
        \<and> get_file_content raw (item_path it) = None \<longrightarrow>
        process_repo info api raw = None)
   \<and> (get_repo_tree api = Some tree \<and> find is_readme tree = Some it
        \<and> get_file_content raw (item_path it) = Some fetched
        \<and> \<not> is_quality_readme (clean_readme fetched) \<longrightarrow>
        process_repo info api raw = None)
   \<and> (get_repo_tree api = Some tree
        \<and> build_code_snippets raw (select_key_files tree) = [] \<longrightarrow>
        process_repo info api raw = None)
   \<and> (\<forall>e \<in> set (collect_page repos).
        code_snippets e \<noteq> [] \<and> is_quality_readme (readme_content e))"
proof -
  have a: "process_repo info api raw = Some ex \<longrightarrow>
      code_snippets ex \<noteq> []
      \<and> (\<exists>tree it fetched. get_repo_tree api = Some tree \<and> it \<in> set tree \<and> is_readme it
            \<and> get_file_content raw (item_path it) = Some fetched
            \<and> readme_content ex = clean_readme fetched
            \<and> is_quality_readme (readme_content ex))"
    using process_repo_Some [of info api raw ex] by blast
  have b: "get_repo_tree api = Some tree \<and> (\<forall>it \<in> set tree. \<not> is_readme it) \<longrightarrow>
        process_repo info api raw = None"
    using process_repo_None(2) [of api tree info raw] by (simp add: find_None_iff)
  have c: "\<forall>e \<in> set (collect_page repos).
        code_snippets e \<noteq> [] \<and> is_quality_readme (readme_content e)"
    using collect_page_mem process_repo_Some by blast
  from a b c process_repo_None(3,4,5) show ?thesis by blast
qed

lemma demo_run: "process_repo demo_info demo_api demo_raw = Some demo_example"
  by code_simp

theorem process_repo_record_witness:
  "process_repo demo_info demo_api demo_raw = Some demo_example
   \<and> code_snippets demo_example \<noteq> []
   \<and> is_quality_readme (readme_content demo_example)
   \<and> process_repo demo_info demo_api (\<lambda>p. \<lparr> status_code = 404, resp_text = [] \<rparr>) = None"
proof -
  have n: "get_repo_tree demo_api = Some demo_tree"
    "find is_readme demo_tree = Some (blob_entry ''README.md'')"
    "get_file_content (\<lambda>p. \<lparr> status_code = 404, resp_text = [] \<rparr>) (item_path (blob_entry ''README.md'')) = None"
    by code_simp+
  from process_repo_record [of demo_info demo_api demo_raw demo_example] demo_run
  have "code_snippets demo_example \<noteq> []" "is_quality_readme (readme_content demo_example)"
    by blast+
  moreover from process_repo_record [of demo_info demo_api "\<lambda>p. \<lparr> status_code = 404, resp_text = [] \<rparr>" _ demo_tree "blob_entry ''README.md''"] n
  have "process_repo demo_info demo_api (\<lambda>p. \<lparr> status_code = 404, resp_text = [] \<rparr>) = None"
    by blast
  ultimately show ?thesis using demo_run by blast
qed

end
